theory Spec2Isabelle
  imports Main "HOL-Library.Word"
begin

section \<open>Data model of \<open>sargs.h\<close>\<close>

text \<open>
  \<open>struct Argument\<close>: one declared flag. The C++ field \<open>value\<close> (whether the flag takes a
  value) is called \<open>takes_value\<close> here, because \<open>value\<close> is reserved in Isabelle.
\<close>

record Argument =
  flag :: string
  alias' :: string
  description :: string
  fallback :: string
  takes_value :: bool

text \<open>
  The private members of \<open>class Args\<close>, with the leading underscore dropped. The value store
  \<open>std::map<std::string, std::string> _arguments\<close> is a partial map; \<open>size_t\<close> counters are
  natural numbers (no claim reaches \<open>2^64\<close> list elements); the two \<open>unsigned\<close> layout
  parameters are 32-bit words, since \<open>_desc_width - 1\<close> wraps when the width is zero.
  \<open>cout\<close> collects what \<open>Initialize\<close> prints on standard output.
\<close>

record Args =
  required :: "Argument list"
  optional :: "Argument list"
  arguments :: "string \<rightharpoonup> string"
  nonflags :: "string list"
  binary :: string
  flag_description :: string
  epilogue :: string
  preamble :: string
  nonflags_required :: nat
  help_enabled :: bool
  exit_enabled :: bool
  exceptions_enabled :: bool
  usage_enabled :: bool
  desc_start :: "32 word"
  desc_width :: "32 word"
  cout :: string

text \<open>The state of a default-constructed \<open>Args\<close> (the member initialisers of the class).\<close>

definition Args_default :: Args where
  "Args_default =
     \<lparr> required = [], optional = [], arguments = Map.empty, nonflags = [],
       binary = [], flag_description = [], epilogue = [], preamble = [],
       nonflags_required = 0,
       help_enabled = True, exit_enabled = True, exceptions_enabled = True,
       usage_enabled = True, desc_start = 30, desc_width = 50, cout = [] \<rparr>"

text \<open>The constructors of \<open>Argument\<close>: without a fallback the member stays empty.\<close>

definition mk_Argument :: "string \<Rightarrow> string \<Rightarrow> string \<Rightarrow> bool \<Rightarrow> string \<Rightarrow> Argument" where
  "mk_Argument f a d v fb =
     \<lparr> flag = f, alias' = a, description = d, fallback = fb, takes_value = v \<rparr>"

subsection \<open>Declarations\<close>

definition AddRequiredFlag :: "string \<Rightarrow> string \<Rightarrow> string \<Rightarrow> Args \<Rightarrow> Args" where
  "AddRequiredFlag f a d s = s\<lparr>required := required s @ [mk_Argument f a d False []]\<rparr>"

definition AddRequiredFlagValue :: "string \<Rightarrow> string \<Rightarrow> string \<Rightarrow> string \<Rightarrow> Args \<Rightarrow> Args" where
  "AddRequiredFlagValue f a d fb s = s\<lparr>required := required s @ [mk_Argument f a d True fb]\<rparr>"

definition AddOptionalFlag :: "string \<Rightarrow> string \<Rightarrow> string \<Rightarrow> Args \<Rightarrow> Args" where
  "AddOptionalFlag f a d s = s\<lparr>optional := optional s @ [mk_Argument f a d False []]\<rparr>"

definition AddOptionalFlagValue :: "string \<Rightarrow> string \<Rightarrow> string \<Rightarrow> string \<Rightarrow> Args \<Rightarrow> Args" where
  "AddOptionalFlagValue f a d fb s = s\<lparr>optional := optional s @ [mk_Argument f a d True fb]\<rparr>"

text \<open>
  \<open>RequireNonFlags(const int count)\<close> stores the \<open>int\<close> in a \<open>size_t\<close>: a negative count
  wraps modulo \<open>2^64\<close>.
\<close>

definition RequireNonFlags :: "int \<Rightarrow> Args \<Rightarrow> Args" where
  "RequireNonFlags count s = s\<lparr>nonflags_required := nat (count mod 2 ^ 64)\<rparr>"

definition DisableHelp :: "Args \<Rightarrow> Args" where
  "DisableHelp s = s\<lparr>help_enabled := False\<rparr>"

definition DisableExit :: "Args \<Rightarrow> Args" where
  "DisableExit s = s\<lparr>exit_enabled := False\<rparr>"

definition DisableExceptions :: "Args \<Rightarrow> Args" where
  "DisableExceptions s = s\<lparr>exceptions_enabled := False\<rparr>"

definition DisableUsage :: "Args \<Rightarrow> Args" where
  "DisableUsage s = s\<lparr>usage_enabled := False\<rparr>"

definition SetDescStartColumn :: "32 word \<Rightarrow> Args \<Rightarrow> Args" where
  "SetDescStartColumn column s = s\<lparr>desc_start := column\<rparr>"

definition SetDescWidth :: "32 word \<Rightarrow> Args \<Rightarrow> Args" where
  "SetDescWidth width s = s\<lparr>desc_width := width\<rparr>"

section \<open>Token classification\<close>

text \<open>
  \<open>CheckIfNonValueFlag\<close> and \<open>CheckIfValueFlag\<close> walk \<open>_required\<close> and then \<open>_optional\<close> and
  answer from the first declaration one of whose spellings equals the token.
\<close>

definition spelled :: "string \<Rightarrow> Argument \<Rightarrow> bool" where
  "spelled f d = (f = flag d \<or> f = alias' d)"

definition CheckIfNonValueFlag :: "Args \<Rightarrow> string \<Rightarrow> bool" where
  "CheckIfNonValueFlag s f =
     (case find (spelled f) (required s) of
        Some d \<Rightarrow> \<not> takes_value d
      | None \<Rightarrow>
          (case find (spelled f) (optional s) of
             Some d \<Rightarrow> \<not> takes_value d
           | None \<Rightarrow> False))"

definition CheckIfValueFlag :: "Args \<Rightarrow> string \<Rightarrow> bool" where
  "CheckIfValueFlag s f =
     (case find (spelled f) (required s) of
        Some d \<Rightarrow> takes_value d
      | None \<Rightarrow>
          (case find (spelled f) (optional s) of
             Some d \<Rightarrow> takes_value d
           | None \<Rightarrow> False))"

text \<open>
  \<open>std::string::find_first_of(ch)\<close>: the index of the first occurrence, \<open>None\<close> for \<open>npos\<close>.
\<close>

fun find_first_of :: "string \<Rightarrow> char \<Rightarrow> nat option" where
  "find_first_of [] ch = None"
| "find_first_of (c # cs) ch =
     (if c = ch then Some 0
      else (case find_first_of cs ch of None \<Rightarrow> None | Some p \<Rightarrow> Some (Suc p)))"

text \<open>
  \<open>TryFlagValueSplit\<close>: the text before the first \<open>=\<close> must be a value flag; the pair is
  written only on success. Without a separator \<open>substr(0, npos)\<close> is the whole token, and
  the result is \<open>false\<close> whatever the lookup says.
\<close>

definition TryFlagValueSplit :: "Args \<Rightarrow> string \<Rightarrow> (string \<times> string) option" where
  "TryFlagValueSplit s arg =
     (case find_first_of arg (CHR ''='') of
        None \<Rightarrow> None
      | Some pos \<Rightarrow>
          (let current_flag = take pos arg in
           if CheckIfValueFlag s current_flag
           then Some (current_flag, drop (pos + 1) arg)
           else None))"

section \<open>The scan of \<open>Parse\<close>\<close>

text \<open>
  The \<open>for\<close> loop of \<open>Parse\<close> over \<open>argv[1] .. argv[argc - 1]\<close>, as a recursion over the
  tokens still to read. The loop state is \<open>flags_encountered\<close>, \<open>delim_encountered\<close> and
  the object; the result also carries the diagnostic of the early \<open>return\<close>. The counters
  are \<open>int\<close> in the source and stay far below \<open>2^31\<close>.
\<close>

fun scan :: "nat \<Rightarrow> string list \<Rightarrow> nat \<Rightarrow> bool \<Rightarrow> Args \<Rightarrow> string option \<times> nat \<times> bool \<times> Args" where
  "scan total_flags [] flags_encountered delim_encountered s =
     (None, flags_encountered, delim_encountered, s)"
| "scan total_flags (current # rest) flags_encountered delim_encountered s =
     (if current = ''--'' then scan total_flags rest flags_encountered True s
      else if delim_encountered then
        scan total_flags rest flags_encountered delim_encountered
          (s\<lparr>nonflags := nonflags s @ [current]\<rparr>)
      else if CheckIfNonValueFlag s current then
        scan total_flags rest (flags_encountered + 1)
          (delim_encountered \<or> total_flags \<le> flags_encountered + 1)
          (s\<lparr>arguments := (arguments s)(current \<mapsto> [])\<rparr>)
      else if CheckIfValueFlag s current then
        (case rest of
           [] \<Rightarrow> (Some (''Must set value for '' @ current),
                  flags_encountered, delim_encountered, s)
         | v # rest' \<Rightarrow>
             scan total_flags rest' (flags_encountered + 1)
               (delim_encountered \<or> total_flags \<le> flags_encountered + 1)
               (s\<lparr>arguments := (arguments s)(current \<mapsto> v)\<rparr>))
      else
        (case TryFlagValueSplit s current of
           Some (f, v) \<Rightarrow>
             scan total_flags rest (flags_encountered + 1)
               (delim_encountered \<or> total_flags \<le> flags_encountered + 1)
               (s\<lparr>arguments := (arguments s)(f \<mapsto> v)\<rparr>)
         | None \<Rightarrow>
             scan total_flags rest flags_encountered delim_encountered
               (s\<lparr>nonflags := nonflags s @ [current]\<rparr>)))"

section \<open>Post-pass validation\<close>

text \<open>
  \<open>CheckForValues\<close> and \<open>CheckForMissing\<close> read and write \<open>_arguments\<close> only, so they are
  functions of the list to check and of the store. \<open>CheckForValues\<close> returns the store as
  it stands at the \<open>return\<close>, also on failure. One iteration of its loop is \<open>check_flag\<close>:
  the lookup under the primary name and, where the first \<open>if\<close> does not apply, the lookup
  under the alias (\<open>check_alias\<close>). \<open>Inl\<close> is the \<open>return\<close> of a diagnostic, \<open>Inr\<close> the
  \<open>continue\<close> with the store.
\<close>

definition check_alias :: "Argument \<Rightarrow> (string \<rightharpoonup> string) \<Rightarrow> string + (string \<rightharpoonup> string)" where
  "check_alias d m =
     (case m (alias' d) of
        None \<Rightarrow> Inr m
      | Some v \<Rightarrow>
          if v \<noteq> [] then
            (if takes_value d \<and> v = []
             then Inl (''Must specify value for '' @ alias' d)
             else Inr (m(flag d \<mapsto> v)))
          else Inr m)"

definition check_flag :: "Argument \<Rightarrow> (string \<rightharpoonup> string) \<Rightarrow> string + (string \<rightharpoonup> string)" where
  "check_flag d m =
     (case m (flag d) of
        None \<Rightarrow> check_alias d m
      | Some v \<Rightarrow>
          if alias' d \<noteq> [] then
            (if takes_value d \<and> v = []
             then Inl (''Must specify value for '' @ flag d)
             else Inr (m(alias' d \<mapsto> v)))
          else check_alias d m)"

fun CheckForValues :: "Argument list \<Rightarrow> (string \<rightharpoonup> string) \<Rightarrow> string \<times> (string \<rightharpoonup> string)" where
  "CheckForValues [] m = ([], m)"
| "CheckForValues (d # to_check) m =
     (case check_flag d m of
        Inl err \<Rightarrow> (err, m)
      | Inr m' \<Rightarrow> CheckForValues to_check m')"

fun CheckForMissing :: "Argument list \<Rightarrow> (string \<rightharpoonup> string) \<Rightarrow> string" where
  "CheckForMissing [] m = []"
| "CheckForMissing (d # to_check) m =
     (if m (flag d) = None \<and> m (alias' d) = None then
        (if flag d \<noteq> [] then ''Must specify '' @ flag d else ''Must specify '' @ alias' d)
      else CheckForMissing to_check m)"

text \<open>\<open>std::to_string\<close> of an unsigned number: its decimal digits.\<close>

definition digit_char :: "nat \<Rightarrow> char" where
  "digit_char n = ''0123456789'' ! n"

fun to_string :: "nat \<Rightarrow> string" where
  "to_string n =
     (if n < 10 then [digit_char n]
      else to_string (n div 10) @ [digit_char (n mod 10)])"

declare to_string.simps [simp del]

text \<open>
  \<open>Parse(argc, argv)\<close> with \<open>argv[0]\<close> given as \<open>bin\<close> and the remaining tokens as \<open>toks\<close>.
  It returns the diagnostic and the object as the call leaves it.
\<close>

definition Parse :: "string \<Rightarrow> string list \<Rightarrow> Args \<Rightarrow> string \<times> Args" where
  "Parse bin toks s =
     (let s0 = s\<lparr>binary := bin\<rparr>;
          total_flags = length (required s0) + length (optional s0)
      in case scan total_flags toks 0 False s0 of
           (Some err, _, _, s1) \<Rightarrow> (err, s1)
         | (None, _, _, s1) \<Rightarrow>
             if length (nonflags s1) \<noteq> nonflags_required s1 \<and> nonflags_required s1 = 0
             then (''Unknown arguments'', s1)
             else if length (nonflags s1) \<noteq> nonflags_required s1
             then (''Unknown arguments or user must specify ''
                     @ to_string (nonflags_required s1) @ '' non-flags'', s1)
             else
               (case CheckForValues (required s1) (arguments s1) of
                  (r1, m1) \<Rightarrow>
                    (case (if r1 = [] then CheckForValues (optional s1) m1 else (r1, m1)) of
                       (r2, m2) \<Rightarrow>
                         (if r2 = [] then CheckForMissing (required s1) m2 else r2,
                          s1\<lparr>arguments := m2\<rparr>))))"




text \<open>
  The scan as \<open>Parse\<close> starts it, and the diagnostic of the positional-count check in
  \<open>Parse\<close> for a required count \<open>N\<close> that the positional tokens do not meet.
\<close>

abbreviation Parse_scan :: "string \<Rightarrow> string list \<Rightarrow> Args \<Rightarrow> string option \<times> nat \<times> bool \<times> Args" where
  "Parse_scan bin toks s \<equiv>
     scan (length (required s) + length (optional s)) toks 0 False (s\<lparr>binary := bin\<rparr>)"

definition count_diagnostic :: "nat \<Rightarrow> string" where
  "count_diagnostic N =
     (if N = 0 then ''Unknown arguments''
      else ''Unknown arguments or user must specify '' @ to_string N @ '' non-flags'')"

text \<open>
  \<open>writes_no_spelling_of d d'\<close>: the loop body of \<open>CheckForValues\<close> for the declaration
  \<open>d'\<close> can write the store only under the primary name of \<open>d'\<close> and under its alias when
  that is not empty; neither is a spelling of \<open>d\<close>.
\<close>

definition writes_no_spelling_of :: "Argument \<Rightarrow> Argument \<Rightarrow> bool" where
  "writes_no_spelling_of d d' =
     (flag d' \<noteq> flag d \<and> flag d' \<noteq> alias' d
      \<and> (alias' d' = [] \<or> (alias' d' \<noteq> flag d \<and> alias' d' \<noteq> alias' d)))"

section \<open>Default values\<close>

text \<open>
  \<open>AddFallbackValues\<close>: the loop body first looks the primary name up and inserts, then
  looks the alias up in the store so updated. \<open>_optional\<close> is walked before \<open>_required\<close>.
\<close>

definition fallback_one :: "Argument \<Rightarrow> (string \<rightharpoonup> string) \<Rightarrow> (string \<rightharpoonup> string)" where
  "fallback_one d m =
     (let m1 = (if m (flag d) = None \<and> fallback d \<noteq> [] then m(flag d \<mapsto> fallback d) else m)
      in if m1 (alias' d) = None \<and> fallback d \<noteq> [] then m1(alias' d \<mapsto> fallback d) else m1)"

definition AddFallbackValues :: "Args \<Rightarrow> Args" where
  "AddFallbackValues s =
     s\<lparr>arguments := fold fallback_one (required s) (fold fallback_one (optional s) (arguments s))\<rparr>"

section \<open>Typed accessors\<close>

text \<open>
  The accessors read the C library's \<open>errno\<close> after \<open>strtoul\<close> and never write it
  themselves, so \<open>errno\<close> is threaded through: every accessor takes the value of \<open>errno\<close>
  before the call and returns the value after it. A thrown \<open>SargsError\<close> is \<open>Inl\<close> of its
  message.
\<close>

definition ERANGE :: int where
  "ERANGE = 34"

definition isspace :: "char \<Rightarrow> bool" where
  "isspace c = (c \<in> set [CHR '' '', CHR 0x09, CHR 0x0A, CHR 0x0B, CHR 0x0C, CHR 0x0D])"

definition digit_of :: "char \<Rightarrow> nat" where
  "digit_of c =
     (let n = (of_char c :: nat) in
      if 48 \<le> n \<and> n \<le> 57 then n - 48
      else if 97 \<le> n \<and> n \<le> 122 then n - 87
      else if 65 \<le> n \<and> n \<le> 90 then n - 55
      else 36)"

text \<open>
  \<open>strtoul(nptr, nullptr, 0)\<close> as ISO C describes it, for a 64-bit \<open>unsigned long\<close>: white
  space, an optional sign, a base taken from the prefix (\<open>0x\<close> hexadecimal, \<open>0\<close> octal,
  decimal otherwise), the longest run of digits of that base. The text is the C string of
  the stored value, so it ends at the first NUL. A value that does not fit gives \<open>ULONG_MAX\<close>
  and sets \<open>errno\<close> to \<open>ERANGE\<close>; in every other case \<open>errno\<close> is left as it was.
\<close>

definition strtoul :: "string \<Rightarrow> int \<Rightarrow> 64 word \<times> int" where
  "strtoul str errno =
     (let cstr = takeWhile (\<lambda>c. c \<noteq> CHR 0x00) str;
          s1 = dropWhile isspace cstr;
          negative = (s1 \<noteq> [] \<and> hd s1 = CHR ''-'');
          s2 = (if s1 \<noteq> [] \<and> (hd s1 = CHR ''-'' \<or> hd s1 = CHR ''+'') then tl s1 else s1);
          hex = (case s2 of
                   z # x # h # _ \<Rightarrow> z = CHR ''0'' \<and> (x = CHR ''x'' \<or> x = CHR ''X'') \<and> digit_of h < 16
                 | _ \<Rightarrow> False);
          base = (if hex then 16 else if s2 \<noteq> [] \<and> hd s2 = CHR ''0'' then 8 else 10);
          s3 = (if hex then drop 2 s2 else s2);
          digits = takeWhile (\<lambda>c. digit_of c < base) s3;
          n = foldl (\<lambda>acc c. acc * base + digit_of c) 0 digits
      in if digits = [] then (0, errno)
         else if 2 ^ 64 \<le> n then (- 1, ERANGE)
         else (if negative then - (word_of_nat n) else word_of_nat n, errno))"

text \<open>
  \<open>bool GetAsUInt64(const std::string& flag, uint64_t& value)\<close>: \<open>Some v\<close> stands for
  \<open>true\<close> with \<open>value\<close> assigned, \<open>None\<close> for \<open>false\<close> with \<open>value\<close> untouched.
\<close>

definition GetAsUInt64_ref :: "Args \<Rightarrow> int \<Rightarrow> string \<Rightarrow> (string + 64 word option) \<times> int" where
  "GetAsUInt64_ref s errno f =
     (if f = [] then
        (if exceptions_enabled s then (Inl ''Flag query empty'', errno) else (Inr None, errno))
      else
        (case arguments s f of
           None \<Rightarrow> (Inr None, errno)
         | Some value_str \<Rightarrow>
             (case strtoul value_str errno of
                (myvalue, errno') \<Rightarrow>
                  (let range_error = (errno' = ERANGE) in
                   if range_error then
                     (if exceptions_enabled s
                      then (Inl (''Could not convert '' @ value_str @ '' to uint64_t''), errno')
                      else (Inr None, errno'))
                   else (Inr (Some myvalue), errno')))))"

definition GetAsUInt8 :: "Args \<Rightarrow> int \<Rightarrow> string \<Rightarrow> (string + 8 word) \<times> int" where
  "GetAsUInt8 s errno f =
     (case GetAsUInt64_ref s errno f of
        (Inl e, errno') \<Rightarrow> (Inl e, errno')
      | (Inr None, errno') \<Rightarrow>
          (if exceptions_enabled s then (Inl (f @ '' was not specified''), errno')
           else (Inr 0, errno'))
      | (Inr (Some v), errno') \<Rightarrow>
          (if v > 255 then
             (if exceptions_enabled s then (Inl (f @ '' was too large for uint8_t''), errno')
              else (Inr 0, errno'))
           else (Inr (ucast v), errno')))"

section \<open>Usage text\<close>

text \<open>
  A read \<open>description[pos]\<close> of a \<open>const std::string\<close>: the character, the terminating
  NUL at \<open>pos = size()\<close>, and undefined behaviour beyond, which the model reports as a
  fault instead of inventing a character.
\<close>

datatype fault = OutOfRange

definition char_at :: "string \<Rightarrow> nat \<Rightarrow> fault + char" where
  "char_at str pos =
     (if pos < length str then Inr (str ! pos)
      else if pos = length str then Inr (CHR 0x00)
      else Inl OutOfRange)"

text \<open>\<open>std::isalpha\<close> and \<open>std::isblank\<close> in the C locale.\<close>

definition isalpha :: "char \<Rightarrow> bool" where
  "isalpha c =
     (let n = (of_char c :: nat) in (65 \<le> n \<and> n \<le> 90) \<or> (97 \<le> n \<and> n \<le> 122))"

definition isblank :: "char \<Rightarrow> bool" where
  "isblank c = (c = CHR '' '' \<or> c = CHR 0x09)"

text \<open>
  \<open>DetermineNumCharsToWrite\<close>. \<open>_desc_width - 1\<close> is computed in \<open>unsigned\<close> arithmetic and
  then widened to \<open>size_t\<close>. The \<open>while\<close> loop walks \<open>location\<close> down.
\<close>

fun walk_back :: "string \<Rightarrow> nat \<Rightarrow> fault + nat" where
  "walk_back descr location =
     (case char_at descr location of
        Inl e \<Rightarrow> Inl e
      | Inr c \<Rightarrow>
          if isalpha c \<and> location > 0 then walk_back descr (location - 1)
          else Inr location)"

declare walk_back.simps [simp del]

definition DetermineNumCharsToWrite :: "Args \<Rightarrow> string \<Rightarrow> fault + nat" where
  "DetermineNumCharsToWrite s descr =
     (case walk_back descr (unat (desc_width s - 1)) of
        Inl e \<Rightarrow> Inl e
      | Inr location \<Rightarrow>
          if location = 0 then
            (case char_at descr location of
               Inl e \<Rightarrow> Inl e
             | Inr c \<Rightarrow> if isalpha c then Inr (unat (desc_width s)) else Inr (location + 1))
          else Inr (location + 1))"

text \<open>
  The blank-skipping loop inside the main loop of \<open>FormatDescription\<close>:
  \<open>while (std::isblank(description[count + skip]) && (skip < _desc_width)) ++skip;\<close>
\<close>

function skip_blanks :: "string \<Rightarrow> nat \<Rightarrow> nat \<Rightarrow> nat \<Rightarrow> fault + nat" where
  "skip_blanks descr count width skip =
     (case char_at descr (count + skip) of
        Inl e \<Rightarrow> Inl e
      | Inr c \<Rightarrow>
          if isblank c \<and> skip < width then skip_blanks descr count width (skip + 1)
          else Inr skip)"
  by pat_completeness auto
termination
  by (relation "measure (\<lambda>(descr, count, width, skip). width - skip)") auto

declare skip_blanks.simps [simp del]

text \<open>
  The main loop of \<open>FormatDescription\<close>, from the value of \<open>count\<close> and the text written to
  \<open>stream\<close> so far. Nothing in its shape bounds the number of iterations, so not returning
  is the value \<open>None\<close>. The subtraction \<open>description.size() - _desc_width\<close> cannot wrap: the
  function has returned before the loop unless the description is longer than the width.
  \<open>substr(count)\<close> and \<open>substr(count, to_write)\<close> are called with \<open>count\<close> below the size.
\<close>

partial_function (option) wrap_lines :: "Args \<Rightarrow> string \<Rightarrow> nat \<Rightarrow> string \<Rightarrow> (fault + nat \<times> string) option" where
  "wrap_lines s descr count stream =
     (if count < length descr - unat (desc_width s) then
        (case DetermineNumCharsToWrite s (drop count descr) of
           Inl e \<Rightarrow> Some (Inl e)
         | Inr to_write \<Rightarrow>
             (case skip_blanks descr count (unat (desc_width s)) 0 of
                Inl e \<Rightarrow> Some (Inl e)
              | Inr skip \<Rightarrow>
                  if skip = unat (desc_width s)
                  then wrap_lines s descr (count + skip) stream
                  else wrap_lines s descr (count + skip + to_write)
                         (stream @ take to_write (drop (count + skip) descr)
                            @ [CHR 0x0A] @ replicate (unat (desc_start s)) (CHR '' ''))))
      else Some (Inr (count, stream)))"

text \<open>
  The loop after the main loop:
  \<open>while (std::isblank(description[count]) && count < _desc_width) ++skip;\<close>
  Its condition does not mention \<open>skip\<close>.
\<close>

partial_function (option) final_skip :: "string \<Rightarrow> nat \<Rightarrow> nat \<Rightarrow> nat \<Rightarrow> (fault + nat) option" where
  "final_skip descr count width skip =
     (case char_at descr count of
        Inl e \<Rightarrow> Some (Inl e)
      | Inr c \<Rightarrow>
          if isblank c \<and> count < width then final_skip descr count width (skip + 1)
          else Some (Inr skip))"

text \<open>
  \<open>FormatDescription\<close>. The last statement writes \<open>description.size() - count\<close> characters
  from \<open>&description[count]\<close>, which is a read like any other.
\<close>

definition FormatDescription :: "Args \<Rightarrow> string \<Rightarrow> (fault + string) option" where
  "FormatDescription s descr =
     (if length descr \<le> unat (desc_width s) then Some (Inr descr)
      else
        (case wrap_lines s descr 0 [] of
           None \<Rightarrow> None
         | Some (Inl e) \<Rightarrow> Some (Inl e)
         | Some (Inr (count, stream)) \<Rightarrow>
             (case final_skip descr count (unat (desc_width s)) 0 of
                None \<Rightarrow> None
              | Some (Inl e) \<Rightarrow> Some (Inl e)
              | Some (Inr skip) \<Rightarrow>
                  if skip \<noteq> unat (desc_width s) then
                    (case char_at descr (count + skip) of
                       Inl e \<Rightarrow> Some (Inl e)
                     | Inr c \<Rightarrow> Some (Inr (stream @ drop (count + skip) descr)))
                  else Some (Inr stream))))"

text \<open>
  \<open>GenerateArgumentUsage\<close>, from the text written to \<open>output\<close> so far. \<open>std::setw\<close> takes an
  \<open>int\<close>, and \<open>std::left\<close> pads on the right up to that width.
\<close>

definition flag_ids :: "Argument \<Rightarrow> string" where
  "flag_ids a =
     ''    '' @ flag a
       @ (if takes_value a then ''=value'' else [])
       @ (if flag a \<noteq> [] \<and> alias' a \<noteq> [] then ''/'' else [])
       @ (if alias' a \<noteq> [] then alias' a @ (if takes_value a then ''=value'' else []) else [])"

definition setw_left :: "32 word \<Rightarrow> string \<Rightarrow> string" where
  "setw_left w str = str @ replicate (nat (sint w) - length str) (CHR '' '')"

fun GenerateArgumentUsage :: "Args \<Rightarrow> Argument list \<Rightarrow> string \<Rightarrow> (fault + string) option" where
  "GenerateArgumentUsage s [] output = Some (Inr output)"
| "GenerateArgumentUsage s (a # rest) output =
     (case FormatDescription s (description a) of
        None \<Rightarrow> None
      | Some (Inl e) \<Rightarrow> Some (Inl e)
      | Some (Inr txt) \<Rightarrow>
          GenerateArgumentUsage s rest
            (output @ setw_left (desc_start s) (flag_ids a) @ txt @ [CHR 0x0A]))"

text \<open>
  The second half of \<open>GenerateUsage\<close>, which builds \<open>_preamble\<close>. Each \<open>for\<close> loop over a
  vector appends to the stream, one element after the other.
\<close>

definition preamble_optional :: "string \<Rightarrow> Argument \<Rightarrow> string" where
  "preamble_optional output a =
     (let o1 = output @ ''['' @ flag a;
          o2 = (if flag a \<noteq> [] then (if takes_value a then o1 @ ''=value'' else o1) else o1);
          o3 = (if alias' a \<noteq> []
                then (let o' = o2 @ ''|'' @ alias' a in
                      if takes_value a then o' @ ''=value'' else o')
                else o2)
      in o3 @ ''] '')"

definition preamble_required :: "string \<Rightarrow> Argument \<Rightarrow> string" where
  "preamble_required output a =
     (let o1 = output @ flag a;
          o2 = (if takes_value a then o1 @ ''=value'' else o1);
          o3 = (if alias' a \<noteq> []
                then (let o' = o2 @ ''|'' @ alias' a in
                      if takes_value a then o' @ ''=value'' else o')
                else o2)
      in o3 @ '' '')"

definition preamble_text :: "Args \<Rightarrow> string" where
  "preamble_text s =
     (let o1 = ''Usage: '' @ binary s @ '' '';
          o2 = foldl preamble_optional o1 (optional s);
          o3 = foldl preamble_required o2 (required s);
          o4 = (if nonflags_required s > 0
                then foldl (\<lambda>output i. output @ ''nonflag'' @ to_string (i + 1) @ '' '')
                       (o3 @ ''<--> '') [0 ..< nonflags_required s]
                else o3)
      in o4 @ [CHR 0x0A])"

definition GenerateUsage :: "Args \<Rightarrow> (fault + Args) option" where
  "GenerateUsage s =
     (let o1 = (if length (required s) > 0 then [CHR 0x0A] @ ''  Required flags:'' @ [CHR 0x0A] else [])
      in case GenerateArgumentUsage s (required s) o1 of
           None \<Rightarrow> None
         | Some (Inl e) \<Rightarrow> Some (Inl e)
         | Some (Inr o2) \<Rightarrow>
             (let o3 = (if length (optional s) > 0
                        then o2 @ [CHR 0x0A] @ ''  Optional flags:'' @ [CHR 0x0A] else o2)
              in case GenerateArgumentUsage s (optional s) o3 of
                   None \<Rightarrow> None
                 | Some (Inl e) \<Rightarrow> Some (Inl e)
                 | Some (Inr o4) \<Rightarrow>
                     (let o5 = (if nonflags_required s > 0
                                then o4 @ [CHR 0x0A] @ ''  '' @ to_string (nonflags_required s)
                                       @ '' non-flags are required'' @ [CHR 0x0A]
                                else o4)
                      in Some (Inr (s\<lparr>flag_description := o5, preamble := preamble_text s\<rparr>)))))"


section \<open>\<open>Initialize\<close>\<close>



section \<open>Facts about the scan and the validation\<close>

lemmas registry_defs =
  Args_default_def mk_Argument_def AddRequiredFlag_def AddRequiredFlagValue_def
  AddOptionalFlag_def AddOptionalFlagValue_def RequireNonFlags_def DisableHelp_def
  DisableExit_def DisableExceptions_def DisableUsage_def SetDescStartColumn_def
  SetDescWidth_def

lemmas classify_defs =
  CheckIfNonValueFlag_def CheckIfValueFlag_def spelled_def TryFlagValueSplit_def

lemmas validate_defs = check_flag_def check_alias_def

text \<open>
  The scan writes the value store and the positional tokens only, and the diagnostic of
  its early \<open>return\<close> is never empty.
\<close>

lemma scan_fields:
  "scan total_flags toks n dl s = (err, n', dl', s') \<Longrightarrow>
     required s' = required s \<and> optional s' = optional s
     \<and> nonflags_required s' = nonflags_required s \<and> binary s' = binary s
     \<and> help_enabled s' = help_enabled s \<and> exit_enabled s' = exit_enabled s
     \<and> usage_enabled s' = usage_enabled s \<and> err \<noteq> Some []"
proof (induction total_flags toks n dl s rule: scan.induct)
  case (1 total_flags flags_encountered delim_encountered s)
  then show ?case by auto
next
  case (2 total_flags current rest flags_encountered delim_encountered s)
  show ?case
  proof (cases "current = ''--''")
    case True
    then show ?thesis using "2.IH"(1) "2.prems" by simp
  next
    case nd: False
    show ?thesis
    proof (cases delim_encountered)
      case True
      then show ?thesis using "2.IH"(2) "2.prems" nd by simp
    next
      case scanning: False
      show ?thesis
      proof (cases "CheckIfNonValueFlag s current")
        case True
        then show ?thesis using "2.IH"(3) "2.prems" nd scanning by simp
      next
        case nv: False
        show ?thesis
        proof (cases "CheckIfValueFlag s current")
          case True
          show ?thesis
          proof (cases rest)
            case Nil
            then show ?thesis using "2.prems" nd scanning nv True by auto
          next
            case (Cons v rest')
            then show ?thesis using "2.IH"(4) "2.prems" nd scanning nv True by simp
          qed
        next
          case nvf: False
          show ?thesis
          proof (cases "TryFlagValueSplit s current")
            case None
            then show ?thesis using "2.IH"(5) "2.prems" nd scanning nv nvf by simp
          next
            case (Some p)
            obtain f v where p: "p = (f, v)" by (cases p)
            show ?thesis
              using "2.IH"(6) [OF nd scanning nv nvf Some p [symmetric]] "2.prems"
                nd scanning nv nvf Some p by simp
          qed
        qed
      qed
    qed
  qed
qed

lemma check_flag_error_nonempty: "check_flag d m = Inl err \<Longrightarrow> err \<noteq> []"
  by (auto simp: validate_defs split: option.splits if_splits)

lemma CheckForValues_append:
  "CheckForValues (xs @ ys) m =
     (case CheckForValues xs m of (r, m') \<Rightarrow> if r = [] then CheckForValues ys m' else (r, m'))"
  by (induction xs arbitrary: m) (auto split: sum.splits dest: check_flag_error_nonempty)

text \<open>The three ways in which \<open>Parse\<close> ends.\<close>

lemma Parse_scan_failed:
  "Parse_scan bin toks s = (Some e, n, dl, s1) \<Longrightarrow> Parse bin toks s = (e, s1)"
  by (simp add: Parse_def)

lemma Parse_count_failed:
  "Parse_scan bin toks s = (None, n, dl, s1) \<Longrightarrow> length (nonflags s1) \<noteq> nonflags_required s1
     \<Longrightarrow> Parse bin toks s = (count_diagnostic (nonflags_required s1), s1)"
  by (simp add: Parse_def count_diagnostic_def)

lemma Parse_validated:
  assumes "Parse_scan bin toks s = (None, n, dl, s1)"
    and "length (nonflags s1) = nonflags_required s1"
    and "CheckForValues (required s1 @ optional s1) (arguments s1) = (r, m)"
  shows "Parse bin toks s =
           (if r = [] then CheckForMissing (required s1) m else r, s1\<lparr>arguments := m\<rparr>)"
  using assms
  by (auto simp: Parse_def CheckForValues_append split: prod.splits if_splits)

lemma check_flag_other:
  "check_flag d m = Inr m' \<Longrightarrow> k \<noteq> flag d \<Longrightarrow> alias' d = [] \<or> k \<noteq> alias' d \<Longrightarrow> m' k = m k"
  by (auto simp: validate_defs split: option.splits if_splits)

lemma check_flag_absent:
  "m (flag d) = None \<Longrightarrow> m (alias' d) = None \<Longrightarrow> check_flag d m = Inr m"
  by (simp add: validate_defs)

lemma check_flag_keeps:
  "check_flag d m = Inr m' \<Longrightarrow> m k \<noteq> None \<Longrightarrow> m' k \<noteq> None"
  by (auto simp: validate_defs split: option.splits if_splits)

lemma CheckForValues_keeps:
  "CheckForValues ds m = ([], m') \<Longrightarrow> m k \<noteq> None \<Longrightarrow> m' k \<noteq> None"
proof (induction ds arbitrary: m)
  case Nil
  then show ?case by simp
next
  case (Cons d ds)
  then show ?case
    by (auto split: sum.splits dest: check_flag_error_nonempty check_flag_keeps)
qed

lemma CheckForValues_other:
  "CheckForValues ds m = ([], m') \<Longrightarrow> list_all (writes_no_spelling_of d) ds
     \<Longrightarrow> m' (flag d) = m (flag d) \<and> m' (alias' d) = m (alias' d)"
proof (induction ds arbitrary: m)
  case Nil
  then show ?case by simp
next
  case (Cons d' ds)
  from Cons.prems(1) obtain m1 where step: "check_flag d' m = Inr m1"
    and rest: "CheckForValues ds m1 = ([], m')"
    by (auto split: sum.splits dest: check_flag_error_nonempty)
  from Cons.prems(2) have w: "writes_no_spelling_of d d'" and ws: "list_all (writes_no_spelling_of d) ds"
    by simp_all
  have "m1 (flag d) = m (flag d)" "m1 (alias' d) = m (alias' d)"
    using check_flag_other [OF step, of "flag d"] check_flag_other [OF step, of "alias' d"] w
    by (auto simp: writes_no_spelling_of_def)
  then show ?case using Cons.IH [OF rest ws] by simp
qed

lemma CheckForValues_keeps_absent:
  "CheckForValues ds m = ([], m') \<Longrightarrow> m (flag d) = None \<Longrightarrow> m (alias' d) = None
     \<Longrightarrow> list_all (\<lambda>d'. d' = d \<or> writes_no_spelling_of d d') ds
     \<Longrightarrow> m' (flag d) = None \<and> m' (alias' d) = None"
proof (induction ds arbitrary: m)
  case Nil
  then show ?case by simp
next
  case (Cons d' ds)
  from Cons.prems(1) obtain m1 where step: "check_flag d' m = Inr m1"
    and rest: "CheckForValues ds m1 = ([], m')"
    by (auto split: sum.splits dest: check_flag_error_nonempty)
  from Cons.prems(4) have w: "d' = d \<or> writes_no_spelling_of d d'"
    and ws: "list_all (\<lambda>d'. d' = d \<or> writes_no_spelling_of d d') ds"
    by simp_all
  have "m1 (flag d) = None \<and> m1 (alias' d) = None"
  proof (cases "d' = d")
    case True
    then show ?thesis using step Cons.prems(2,3) by (simp add: check_flag_absent)
  next
    case False
    then show ?thesis
      using check_flag_other [OF step, of "flag d"] check_flag_other [OF step, of "alias' d"] w
        Cons.prems(2,3)
      by (auto simp: writes_no_spelling_of_def)
  qed
  then show ?case using Cons.IH [OF rest _ _ ws] by simp
qed

lemma CheckForMissing_nonempty:
  "d \<in> set ds \<Longrightarrow> m (flag d) = None \<Longrightarrow> m (alias' d) = None \<Longrightarrow> CheckForMissing ds m \<noteq> []"
  by (induction ds) auto

lemma CheckForMissing_first:
  "list_all (\<lambda>p. m (flag p) \<noteq> None \<or> m (alias' p) \<noteq> None) pre
     \<Longrightarrow> m (flag d) = None \<Longrightarrow> m (alias' d) = None
     \<Longrightarrow> CheckForMissing (pre @ d # post) m
           = ''Must specify '' @ (if flag d \<noteq> [] then flag d else alias' d)"
  by (induction pre) auto

lemma check_flag_not_U: "check_flag d m = Inl err \<Longrightarrow> take 1 err \<noteq> ''U''"
  by (auto simp: validate_defs split: option.splits if_splits)

lemma CheckForValues_not_U: "take 1 (fst (CheckForValues ds m)) \<noteq> ''U''"
  by (induction ds arbitrary: m) (auto split: sum.splits dest: check_flag_not_U)

lemma CheckForMissing_not_U: "take 1 (CheckForMissing ds m) \<noteq> ''U''"
  by (induction ds) auto

lemma count_diagnostic_nonempty: "count_diagnostic N \<noteq> []"
  by (simp add: count_diagnostic_def)

section \<open>The positional-only mode of the scan\<close>

lemma scan_positional_only:
  "scan total_flags toks n True s =
     (None, n, True, s\<lparr>nonflags := nonflags s @ filter (\<lambda>t. t \<noteq> ''--'') toks\<rparr>)"
  by (induction toks arbitrary: s) simp_all

text \<open>
  Claim C2, as the code has it. Once \<open>delim_encountered\<close> is set it stays set to the end of
  the scan, the scan cannot fail any more, the counter and the value store do not change,
  and every later token is appended to the positional tokens, except the tokens \<open>--\<close>,
  which the loop tests for first and drops in every mode. The mode is entered by the token
  \<open>--\<close>, or when a flag is consumed (in any of its three forms) and the count of consumed
  flags reaches the number of declared flags.
\<close>

theorem C2_positional_only_is_permanent:
  "scan total_flags toks n True s =
     (None, n, True, s\<lparr>nonflags := nonflags s @ filter (\<lambda>t. t \<noteq> ''--'') toks\<rparr>)
   \<and> scan total_flags (''--'' # toks) n dl s =
     (None, n, True, s\<lparr>nonflags := nonflags s @ filter (\<lambda>t. t \<noteq> ''--'') toks\<rparr>)
   \<and> (\<not> dl \<and> tok \<noteq> ''--'' \<and> total_flags \<le> n + 1 \<and> CheckIfNonValueFlag s tok \<longrightarrow>
        scan total_flags (tok # toks) n dl s =
          (None, n + 1, True,
           s\<lparr>arguments := (arguments s)(tok \<mapsto> []),
             nonflags := nonflags s @ filter (\<lambda>t. t \<noteq> ''--'') toks\<rparr>))
   \<and> (\<not> dl \<and> tok \<noteq> ''--'' \<and> total_flags \<le> n + 1 \<and> \<not> CheckIfNonValueFlag s tok
        \<and> CheckIfValueFlag s tok \<longrightarrow>
        scan total_flags (tok # v # toks) n dl s =
          (None, n + 1, True,
           s\<lparr>arguments := (arguments s)(tok \<mapsto> v),
             nonflags := nonflags s @ filter (\<lambda>t. t \<noteq> ''--'') toks\<rparr>))
   \<and> (\<not> dl \<and> tok \<noteq> ''--'' \<and> total_flags \<le> n + 1 \<and> \<not> CheckIfNonValueFlag s tok
        \<and> \<not> CheckIfValueFlag s tok \<and> TryFlagValueSplit s tok = Some (f, v) \<longrightarrow>
        scan total_flags (tok # toks) n dl s =
          (None, n + 1, True,
           s\<lparr>arguments := (arguments s)(f \<mapsto> v),
             nonflags := nonflags s @ filter (\<lambda>t. t \<noteq> ''--'') toks\<rparr>))"
  by (simp add: scan_positional_only)

text \<open>
  The theorem at a registry of one valueless and one value flag, with one flag already
  consumed: each of the three flag forms switches the mode, and the flag-like tokens that
  follow end up among the positional tokens.
\<close>

definition two_flags :: Args where
  "two_flags =
     AddOptionalFlagValue ''--name'' ''-n'' ''a name'' []
       (AddOptionalFlag ''--verbose'' ''-v'' ''more output'' Args_default)"

lemma two_flags_classify:
  "CheckIfNonValueFlag two_flags ''-v''"
  "\<not> CheckIfNonValueFlag two_flags ''-n''"
  "CheckIfValueFlag two_flags ''-n''"
  "\<not> CheckIfNonValueFlag two_flags ''-n=x''"
  "\<not> CheckIfValueFlag two_flags ''-n=x''"
  "TryFlagValueSplit two_flags ''-n=x'' = Some (''-n'', ''x'')"
  by (simp_all add: two_flags_def AddOptionalFlagValue_def AddOptionalFlag_def mk_Argument_def
      Args_default_def CheckIfNonValueFlag_def CheckIfValueFlag_def spelled_def
      TryFlagValueSplit_def)

theorem C2_positional_only_witness:
  "scan 2 [''-v'', ''-n'', ''--'', ''y''] 1 False two_flags =
     (None, 2, True,
      two_flags\<lparr>arguments := (arguments two_flags)(''-v'' \<mapsto> []),
        nonflags := nonflags two_flags @ [''-n'', ''y'']\<rparr>)
   \<and> scan 2 [''-n'', ''x'', ''-v''] 1 False two_flags =
     (None, 2, True,
      two_flags\<lparr>arguments := (arguments two_flags)(''-n'' \<mapsto> ''x''),
        nonflags := nonflags two_flags @ [''-v'']\<rparr>)
   \<and> scan 2 [''-n=x'', ''-v''] 1 False two_flags =
     (None, 2, True,
      two_flags\<lparr>arguments := (arguments two_flags)(''-n'' \<mapsto> ''x''),
        nonflags := nonflags two_flags @ [''-v'']\<rparr>)"
  using C2_positional_only_is_permanent
          [of 2 "[''-n'', ''--'', ''y'']" 1 two_flags False "''-v''" "''x''" "''-n''"]
        C2_positional_only_is_permanent
          [of 2 "[''-v'']" 1 two_flags False "''-n''" "''x''" "''-n''"]
        C2_positional_only_is_permanent
          [of 2 "[''-v'']" 1 two_flags False "''-n=x''" "''x''" "''-n''"]
        two_flags_classify
  by simp

text \<open>
  The claim as it is written says that every token after the switch is appended. A second
  \<open>--\<close> is not: in positional-only mode the scan of the single token \<open>--\<close> leaves the
  positional tokens as they were.
\<close>

theorem C2_second_delimiter_dropped:
  "scan 0 [''--''] 0 True Args_default
     \<noteq> (None, 0, True, Args_default\<lparr>nonflags := nonflags Args_default @ [''--'']\<rparr>)
   \<and> nonflags (snd (Parse ''prog'' [''--'', ''--'', ''x''] Args_default)) = [''x'']"
  by (simp add: Parse_def Args_default_def)

section \<open>The positional-count check\<close>

text \<open>
  Claim C6, as the code has it. When the scan has run to its end, \<open>Parse\<close> returns the
  diagnostic of the positional-count check exactly when the number of positional tokens
  differs from the required count \<open>N\<close>: for \<open>N = 0\<close> it is \<open>Unknown arguments\<close>, for
  \<open>N > 0\<close> it is \<open>Unknown arguments or user must specify N non-flags\<close>. With exactly \<open>N\<close>
  positional tokens the diagnostic is that of the later checks.
\<close>

theorem C6_positional_count_check:
  assumes "Parse_scan bin toks s = (None, n, dl, s')"
  shows "(fst (Parse bin toks s) = count_diagnostic (nonflags_required s))
           = (length (nonflags s') \<noteq> nonflags_required s)"
proof -
  have N: "nonflags_required s' = nonflags_required s"
    and fields: "required s' = required s" "optional s' = optional s"
    using scan_fields [OF assms] by simp_all
  show ?thesis
  proof (cases "length (nonflags s') = nonflags_required s")
    case False
    then show ?thesis
      using Parse_count_failed [OF assms] N by simp
  next
    case True
    obtain r m where cfv: "CheckForValues (required s' @ optional s') (arguments s') = (r, m)"
      by (cases "CheckForValues (required s' @ optional s') (arguments s')")
    let ?r = "if r = [] then CheckForMissing (required s') m else r"
    have res: "fst (Parse bin toks s) = ?r"
      using Parse_validated [OF assms _ cfv] True N by simp
    have "take 1 r \<noteq> ''U''"
      using CheckForValues_not_U [of "required s' @ optional s'" "arguments s'"] cfv by simp
    then have "take 1 ?r \<noteq> ''U''"
      using CheckForMissing_not_U [of "required s'" m] by simp
    moreover have "take 1 (count_diagnostic (nonflags_required s)) = ''U''"
      by (simp add: count_diagnostic_def)
    ultimately have "?r \<noteq> count_diagnostic (nonflags_required s)"
      by auto
    then show ?thesis using res True by simp
  qed
qed

theorem C6_positional_count_witness:
  "(fst (Parse ''prog'' [''a'', ''b''] (RequireNonFlags 2 Args_default)) = count_diagnostic 2)
     = (length [''a'', ''b''] \<noteq> (2::nat))
   \<and> (fst (Parse ''prog'' [''a''] (RequireNonFlags 2 Args_default)) = count_diagnostic 2)
     = (length [''a''] \<noteq> (2::nat))"
  using C6_positional_count_check
          [where bin = "''prog''" and toks = "[''a'', ''b'']"
             and s = "RequireNonFlags 2 Args_default" and n = 0 and dl = False
             and s' = "RequireNonFlags 2 Args_default\<lparr>binary := ''prog'', nonflags := [''a'', ''b'']\<rparr>"]
        C6_positional_count_check
          [where bin = "''prog''" and toks = "[''a'']"
             and s = "RequireNonFlags 2 Args_default" and n = 0 and dl = False
             and s' = "RequireNonFlags 2 Args_default\<lparr>binary := ''prog'', nonflags := [''a'']\<rparr>"]
  by (simp add: registry_defs classify_defs)

text \<open>
  The claim as it is written gives the diagnostic for \<open>N > 0\<close> the form
  \<open>unknown arguments or exactly N non-flags required\<close>. With \<open>N = 2\<close> and one or three
  positional tokens the code returns another text.
\<close>

theorem C6_diagnostic_text:
  "fst (Parse ''prog'' [''a''] (RequireNonFlags 2 Args_default))
     = ''Unknown arguments or user must specify 2 non-flags''
   \<and> fst (Parse ''prog'' [''a''] (RequireNonFlags 2 Args_default))
     \<noteq> ''unknown arguments or exactly 2 non-flags required''
   \<and> fst (Parse ''prog'' [''a'', ''b'', ''c''] (RequireNonFlags 2 Args_default))
     \<noteq> ''Unknown arguments or exactly 2 non-flags required''"
  by (simp add: Parse_def registry_defs classify_defs to_string.simps digit_char_def)

section \<open>The value check\<close>

text \<open>
  Where the check of \<open>CheckForValues\<close> does fire: a value flag with an alias whose primary
  name is stored with an empty value.
\<close>

lemma CheckForValues_empty_primary:
  "m (flag d) = Some [] \<Longrightarrow> alias' d \<noteq> [] \<Longrightarrow> takes_value d
     \<Longrightarrow> CheckForValues (d # ds) m = (''Must specify value for '' @ flag d, m)"
  by (simp add: validate_defs)

text \<open>
  Claim C4 says that a value flag stored with an empty value under its primary name or
  under its alias makes the parse fail with \<open>Must specify value for <name>\<close>. The code
  has the two tests, but the one for the alias stands inside
  \<open>if (... && !arg_iter->second.empty())\<close> and can never fire, and the one for the
  primary name is skipped when the declaration has no alias. So \<open>-n=\<close> for the required
  value flag \<open>--name\<close>/\<open>-n\<close>, and \<open>--name=\<close> for the required value flag \<open>--name\<close> without
  alias, both parse with the empty diagnostic and an empty stored value.
\<close>

theorem C4_empty_value_accepted:
  "Parse ''prog'' [''-n='']
      (AddRequiredFlagValue ''--name'' ''-n'' ''a name'' [] Args_default)
    = ([], (AddRequiredFlagValue ''--name'' ''-n'' ''a name'' [] Args_default)
             \<lparr>binary := ''prog'', arguments := [''-n'' \<mapsto> []]\<rparr>)
   \<and> Parse ''prog'' [''--name='']
      (AddRequiredFlagValue ''--name'' [] ''a name'' [] Args_default)
    = ([], (AddRequiredFlagValue ''--name'' [] ''a name'' [] Args_default)
             \<lparr>binary := ''prog'', arguments := [''--name'' \<mapsto> []]\<rparr>)"
  by (simp add: Parse_def registry_defs classify_defs validate_defs)

section \<open>The missing-required check\<close>

text \<open>
  Claim C7, as the code has it. Let \<open>d\<close> be a required declaration neither of whose
  spellings is in the value store after the scan, and let no other declaration be able to
  write one of its spellings during the value check. Then \<open>Parse\<close> returns a non-empty
  diagnostic. The diagnostic is the first failure: it is \<open>Must specify\<close> followed by the
  primary name of \<open>d\<close> (by its alias when the primary name is empty) when the scan ran to
  its end, the positional-count check and the value check passed, and every required
  declaration before \<open>d\<close> has a spelling in the store.
\<close>

theorem C7_missing_required_flag:
  assumes req: "required s = pre @ d # post"
    and sc: "Parse_scan bin toks s = (err, n, dl, s')"
    and absent: "arguments s' (flag d) = None" "arguments s' (alias' d) = None"
    and others: "list_all (\<lambda>d'. d' = d \<or> writes_no_spelling_of d d') (required s @ optional s)"
  shows "fst (Parse bin toks s) \<noteq> []
    \<and> (err = None \<and> length (nonflags s') = nonflags_required s
        \<and> fst (CheckForValues (required s @ optional s) (arguments s')) = []
        \<and> list_all (\<lambda>p. arguments s' (flag p) \<noteq> None \<or> arguments s' (alias' p) \<noteq> None) pre
       \<longrightarrow> fst (Parse bin toks s) = ''Must specify '' @ (if flag d \<noteq> [] then flag d else alias' d))"
proof -
  have fields: "required s' = required s" "optional s' = optional s"
    "nonflags_required s' = nonflags_required s"
    using scan_fields [OF sc] by simp_all
  obtain r m where cfv: "CheckForValues (required s @ optional s) (arguments s') = (r, m)"
    by (cases "CheckForValues (required s @ optional s) (arguments s')")
  have validated: "fst (Parse bin toks s) = (if r = [] then CheckForMissing (required s) m else r)"
    if "err = None" "length (nonflags s') = nonflags_required s"
    using Parse_validated [OF _ _ cfv [folded fields(1,2)]] sc that fields by simp
  have still_absent: "m (flag d) = None \<and> m (alias' d) = None" if "r = []"
    using CheckForValues_keeps_absent [of "required s @ optional s" "arguments s'" m d]
      cfv that absent others by simp
  have nonempty: "fst (Parse bin toks s) \<noteq> []"
  proof (cases err)
    case (Some e)
    then show ?thesis
      using Parse_scan_failed [of s toks bin e n dl s'] sc scan_fields [OF sc]
      by auto
  next
    case None
    show ?thesis
    proof (cases "length (nonflags s') = nonflags_required s")
      case False
      then show ?thesis
        using Parse_count_failed [of s toks bin n dl s'] sc None fields count_diagnostic_nonempty
        by simp
    next
      case True
      show ?thesis
      proof (cases "r = []")
        case False
        then show ?thesis using validated [OF None True] by simp
      next
        case True': True
        have "d \<in> set (required s)" using req by simp
        then have "CheckForMissing (required s) m \<noteq> []"
          using CheckForMissing_nonempty [of d "required s" m] still_absent [OF True'] by simp
        then show ?thesis using validated [OF None True] True' by simp
      qed
    qed
  qed
  have named: "fst (Parse bin toks s) = ''Must specify '' @ (if flag d \<noteq> [] then flag d else alias' d)"
    if ok: "err = None" "length (nonflags s') = nonflags_required s"
      "fst (CheckForValues (required s @ optional s) (arguments s')) = []"
      "list_all (\<lambda>p. arguments s' (flag p) \<noteq> None \<or> arguments s' (alias' p) \<noteq> None) pre"
  proof -
    have r: "r = []" using ok(3) cfv by simp
    have "list_all (\<lambda>p. m (flag p) \<noteq> None \<or> m (alias' p) \<noteq> None) pre"
      using ok(4) cfv r CheckForValues_keeps [of "required s @ optional s" "arguments s'" m]
      by (auto simp: list_all_iff)
    then have "CheckForMissing (required s) m
                 = ''Must specify '' @ (if flag d \<noteq> [] then flag d else alias' d)"
      using CheckForMissing_first [of m pre d post] still_absent [OF r] req by simp
    then show ?thesis using validated [OF ok(1,2)] r by simp
  qed
  show ?thesis
  proof (intro conjI impI)
    show "fst (Parse bin toks s) \<noteq> []" by (rule nonempty)
  next
    assume "err = None \<and> length (nonflags s') = nonflags_required s
        \<and> fst (CheckForValues (required s @ optional s) (arguments s')) = []
        \<and> list_all (\<lambda>p. arguments s' (flag p) \<noteq> None \<or> arguments s' (alias' p) \<noteq> None) pre"
    then show "fst (Parse bin toks s) = ''Must specify '' @ (if flag d \<noteq> [] then flag d else alias' d)"
      using named by simp
  qed
qed

text \<open>
  The theorem at two required flags of which the first is given: the diagnostic names the
  second.
\<close>

definition two_required :: Args where
  "two_required =
     AddRequiredFlag ''--beta'' ''-b'' ''second''
       (AddRequiredFlag ''--alpha'' ''-a'' ''first'' Args_default)"

theorem C7_missing_required_witness:
  "fst (Parse ''prog'' [''-a''] two_required) \<noteq> []
   \<and> fst (Parse ''prog'' [''-a''] two_required) = ''Must specify --beta''"
  using C7_missing_required_flag
          [where s = two_required and pre = "[hd (required two_required)]"
             and d = "hd (tl (required two_required))" and post = "[]"
             and bin = "''prog''" and toks = "[''-a'']" and err = None and n = 1 and dl = False
             and s' = "two_required\<lparr>binary := ''prog'', arguments := [''-a'' \<mapsto> []]\<rparr>"]
  by (simp add: two_required_def registry_defs classify_defs validate_defs
        writes_no_spelling_of_def)

text \<open>
  The claim as it is written promises, for every required declaration absent after the
  scan, a diagnostic that names it. With both flags of \<open>two_required\<close> absent the
  diagnostic names only the first. And where the alias of one declaration is the primary
  name of another, the value check can store the absent flag: below, \<open>x\<close>/\<open>y\<close> is absent
  after the scan of \<open>p\<close>, and the parse succeeds.
\<close>

definition chained_required :: Args where
  "chained_required =
     AddRequiredFlag ''x'' ''y'' ''second''
       (AddRequiredFlag ''p'' ''x'' ''first'' Args_default)"

theorem C7_first_failure_only:
  "fst (Parse ''prog'' [] two_required) = ''Must specify --alpha''
   \<and> arguments (snd (Parse ''prog'' [] two_required)) ''--beta'' = None
   \<and> arguments (snd (Parse ''prog'' [] two_required)) ''-b'' = None
   \<and> fst (Parse ''prog'' [] two_required) \<noteq> ''Must specify --beta''
   \<and> snd (snd (snd (Parse_scan ''prog'' [''p''] chained_required)))
       = chained_required\<lparr>binary := ''prog'', arguments := [''p'' \<mapsto> []]\<rparr>
   \<and> fst (Parse ''prog'' [''p''] chained_required) = []"
  by (simp add: Parse_def two_required_def chained_required_def registry_defs classify_defs
        validate_defs)

section \<open>The alias backfill\<close>

text \<open>
  The registries of the evaluation below: the required value flag \<open>--name\<close>/\<open>-n\<close> with the
  optional valueless flag \<open>--verbose\<close>/\<open>-v\<close>, and the optional value flag \<open>--out\<close>/\<open>-o\<close>
  with the default \<open>out.txt\<close>.
\<close>

definition name_and_verbose :: Args where
  "name_and_verbose =
     AddOptionalFlag ''--verbose'' ''-v'' ''more output''
       (AddRequiredFlagValue ''--name'' ''-n'' ''a name'' [] Args_default)"

definition out_with_default :: Args where
  "out_with_default =
     AddOptionalFlagValue ''--out'' ''-o'' ''output file'' ''out.txt'' Args_default"

lemma Parse_name_and_verbose:
  "Parse ''prog'' [''-n'', ''Alice'', ''-v''] name_and_verbose =
     ([], name_and_verbose\<lparr>binary := ''prog'',
            arguments := [''-n'' \<mapsto> ''Alice'', ''-v'' \<mapsto> [], ''--name'' \<mapsto> ''Alice'']\<rparr>)"
  by (simp add: Parse_def name_and_verbose_def registry_defs classify_defs validate_defs)

lemma Parse_name_and_verbose_primary:
  "Parse ''prog'' [''-n'', ''Alice'', ''--verbose''] name_and_verbose =
     ([], name_and_verbose\<lparr>binary := ''prog'',
            arguments := [''-n'' \<mapsto> ''Alice'', ''--verbose'' \<mapsto> [], ''--name'' \<mapsto> ''Alice'',
                          ''-v'' \<mapsto> []]\<rparr>)"
  by (simp add: Parse_def name_and_verbose_def registry_defs classify_defs validate_defs)

lemma Parse_out_with_default:
  "Parse ''prog'' [''-o=''] out_with_default =
     ([], out_with_default\<lparr>binary := ''prog'', arguments := [''-o'' \<mapsto> []]\<rparr>)"
  by (simp add: Parse_def out_with_default_def registry_defs classify_defs validate_defs)

text \<open>
  Claim C1 says that after a successful parse the store holds the same value under the
  primary name and under the alias of every declared flag with an alias. \<open>CheckForValues\<close>
  copies in both directions, but its alias branch is entered only for a non-empty stored
  value (\<open>!arg_iter->second.empty()\<close>), while the branch for the primary name copies
  empty values too. So the valueless flag \<open>--verbose\<close>/\<open>-v\<close> given as \<open>--verbose\<close> is
  stored under both spellings, and given as \<open>-v\<close> it is stored under \<open>-v\<close> only. For the
  value flag \<open>--out\<close>/\<open>-o\<close> with a default, the token \<open>-o=\<close> leaves the empty value under
  \<open>-o\<close>, and \<open>AddFallbackValues\<close> then stores the default under \<open>--out\<close>: the two spellings
  hold different values.
\<close>

theorem C1_alias_with_empty_value_not_copied:
  "fst (Parse ''prog'' [''-n'', ''Alice'', ''--verbose''] name_and_verbose) = []
   \<and> arguments (snd (Parse ''prog'' [''-n'', ''Alice'', ''--verbose''] name_and_verbose)) ''--verbose''
       = Some []
   \<and> arguments (snd (Parse ''prog'' [''-n'', ''Alice'', ''--verbose''] name_and_verbose)) ''-v''
       = Some []
   \<and> fst (Parse ''prog'' [''-n'', ''Alice'', ''-v''] name_and_verbose) = []
   \<and> arguments (snd (Parse ''prog'' [''-n'', ''Alice'', ''-v''] name_and_verbose)) ''--verbose''
       = None
   \<and> arguments (snd (Parse ''prog'' [''-n'', ''Alice'', ''-v''] name_and_verbose)) ''-v''
       = Some []
   \<and> fst (Parse ''prog'' [''-o=''] out_with_default) = []
   \<and> arguments (AddFallbackValues (snd (Parse ''prog'' [''-o=''] out_with_default))) ''--out''
       = Some ''out.txt''
   \<and> arguments (AddFallbackValues (snd (Parse ''prog'' [''-o=''] out_with_default))) ''-o''
       = Some []"
  by (simp add: Parse_name_and_verbose Parse_name_and_verbose_primary Parse_out_with_default)
     (simp add: AddFallbackValues_def fallback_one_def out_with_default_def registry_defs)

section \<open>The two forms of a value flag\<close>

lemma find_first_of_append:
  "ch \<notin> set f \<Longrightarrow> find_first_of (f @ ch # v) ch = Some (length f)"
  by (induction f) auto

lemma find_undeclared:
  "list_all (\<lambda>d. \<not> spelled t d) ds \<Longrightarrow> find (spelled t) ds = None"
  by (induction ds) auto

lemma undeclared_not_flag:
  assumes "list_all (\<lambda>d. \<not> spelled t d) (required s @ optional s)"
  shows "\<not> CheckIfNonValueFlag s t" and "\<not> CheckIfValueFlag s t"
  using assms find_undeclared [of t "required s"] find_undeclared [of t "optional s"]
  by (simp_all add: CheckIfNonValueFlag_def CheckIfValueFlag_def)

lemma value_flag_not_valueless: "CheckIfValueFlag s f \<Longrightarrow> \<not> CheckIfNonValueFlag s f"
  by (auto simp: CheckIfNonValueFlag_def CheckIfValueFlag_def split: option.splits)

text \<open>
  \<open>constant_store k v m\<close>: the store \<open>m\<close> has \<open>v\<close> under \<open>k\<close> and no other value anywhere.
\<close>

definition constant_store :: "string \<Rightarrow> string \<Rightarrow> (string \<rightharpoonup> string) \<Rightarrow> bool" where
  "constant_store k v m = (m k = Some v \<and> (\<forall>k' v'. m k' = Some v' \<longrightarrow> v' = v))"

lemma constant_store_upd:
  assumes "constant_store k v m" and "m k0 = Some v0"
  shows "constant_store k v (m(k1 \<mapsto> v0))"
proof -
  have "v0 = v" using assms by (simp add: constant_store_def)
  then show ?thesis using assms(1) by (simp add: constant_store_def)
qed

lemma check_alias_constant:
  assumes "check_alias d m = Inr m'" and "constant_store k v m"
  shows "constant_store k v m'"
proof (cases "m (alias' d)")
  case None
  then show ?thesis using assms by (simp add: check_alias_def)
next
  case (Some v0)
  show ?thesis
  proof (cases "v0 = []")
    case True
    then show ?thesis using assms Some by (simp add: check_alias_def)
  next
    case False
    then have "m' = m(flag d \<mapsto> v0)"
      using assms(1) Some by (simp add: check_alias_def)
    then show ?thesis using constant_store_upd [OF assms(2) Some] by simp
  qed
qed

lemma check_flag_constant:
  assumes "check_flag d m = Inr m'" and "constant_store k v m"
  shows "constant_store k v m'"
proof (cases "m (flag d)")
  case None
  then show ?thesis using assms check_alias_constant by (simp add: check_flag_def)
next
  case (Some v0)
  show ?thesis
  proof (cases "alias' d = []")
    case True
    then show ?thesis using assms Some check_alias_constant by (simp add: check_flag_def)
  next
    case False
    then have "m' = m(alias' d \<mapsto> v0)"
      using assms(1) Some by (simp add: check_flag_def split: if_splits)
    then show ?thesis using constant_store_upd [OF assms(2) Some] by simp
  qed
qed

lemma CheckForValues_constant:
  "CheckForValues ds m = (r, m') \<Longrightarrow> constant_store k v m \<Longrightarrow> constant_store k v m'"
proof (induction ds arbitrary: m)
  case Nil
  then show ?case by simp
next
  case (Cons d ds)
  show ?case
  proof (cases "check_flag d m")
    case (Inl e)
    then show ?thesis using Cons.prems by simp
  next
    case (Inr m1)
    then have rest: "CheckForValues ds m1 = (r, m')" using Cons.prems(1) by simp
    show ?thesis
      by (rule Cons.IH [OF rest check_flag_constant [OF Inr Cons.prems(2)]])
  qed
qed

lemma Parse_keeps_constant:
  assumes sc: "Parse_scan bin toks s = (err, n, dl, s1)"
    and inv: "constant_store k v (arguments s1)"
  shows "arguments (snd (Parse bin toks s)) k = Some v"
proof -
  obtain r1 m1 where c1: "CheckForValues (required s1) (arguments s1) = (r1, m1)"
    by (cases "CheckForValues (required s1) (arguments s1)")
  obtain r2 m2 where c2: "CheckForValues (optional s1) m1 = (r2, m2)"
    by (cases "CheckForValues (optional s1) m1")
  have i0: "arguments s1 k = Some v"
    using inv by (simp add: constant_store_def)
  have i1: "constant_store k v m1"
    by (rule CheckForValues_constant [OF c1 inv])
  have i2: "constant_store k v m2"
    by (rule CheckForValues_constant [OF c2 i1])
  have m1: "m1 k = Some v" and m2: "m2 k = Some v"
    using i1 i2 by (simp_all add: constant_store_def)
  show ?thesis
  proof (cases err)
    case (Some e)
    then show ?thesis using sc i0 by (simp add: Parse_def)
  next
    case None
    then show ?thesis using sc i0 c1 c2 m1 m2 by (simp add: Parse_def)
  qed
qed

lemma Parse_determined_by_scan:
  assumes "Parse_scan bin toks s = (None, n, dl, s1)"
    and "Parse_scan bin toks' s = (None, n', dl', s1)"
  shows "Parse bin toks s = Parse bin toks' s"
proof (cases "length (nonflags s1) = nonflags_required s1")
  case False
  then show ?thesis
    using Parse_count_failed [OF assms(1)] Parse_count_failed [OF assms(2)] by simp
next
  case True
  obtain r m where cfv: "CheckForValues (required s1 @ optional s1) (arguments s1) = (r, m)"
    by (cases "CheckForValues (required s1 @ optional s1) (arguments s1)")
  show ?thesis
    using Parse_validated [OF assms(1) True cfv] Parse_validated [OF assms(2) True cfv] by simp
qed

lemma scan_one_split:
  assumes "t \<noteq> ''--''" and "\<not> CheckIfNonValueFlag s t" and "\<not> CheckIfValueFlag s t"
    and "TryFlagValueSplit s t = Some (f, v)"
  shows "scan total_flags [t] n False s =
           (None, n + 1, total_flags \<le> n + 1, s\<lparr>arguments := (arguments s)(f \<mapsto> v)\<rparr>)"
  using assms by simp

lemma scan_flag_and_value:
  assumes "f \<noteq> ''--''" and "\<not> CheckIfNonValueFlag s f" and "CheckIfValueFlag s f"
  shows "scan total_flags [f, v] n False s =
           (None, n + 1, total_flags \<le> n + 1, s\<lparr>arguments := (arguments s)(f \<mapsto> v)\<rparr>)"
  using assms by simp

text \<open>
  Claim C5, as the code has it. Let \<open>f\<close> be a spelling that the classifier takes for a
  value flag, without the character \<open>=\<close> in it and other than \<open>--\<close>, and let the token
  \<open>f=v\<close> not be a declared spelling itself. Then, from an empty value store, parsing the
  one token \<open>f=v\<close> and parsing the two tokens \<open>f\<close>, \<open>v\<close> give the same diagnostic and
  the same object, and the store has \<open>v\<close> under \<open>f\<close>.
\<close>

theorem C5_equals_form_and_two_tokens:
  assumes vf: "CheckIfValueFlag s f"
    and noeq: "CHR ''='' \<notin> set f"
    and nodelim: "f \<noteq> ''--''"
    and undeclared: "list_all (\<lambda>d. \<not> spelled (f @ ''='' @ v) d) (required s @ optional s)"
    and fresh: "arguments s = Map.empty"
  shows "Parse bin [f @ ''='' @ v] s = Parse bin [f, v] s
    \<and> arguments (snd (Parse bin [f, v] s)) f = Some v"
proof -
  define t where "t = f @ ''='' @ v"
  define s0 where "s0 = s\<lparr>binary := bin\<rparr>"
  define s1 where "s1 = s0\<lparr>arguments := (arguments s0)(f \<mapsto> v)\<rparr>"
  have vf0: "CheckIfValueFlag s0 f"
    using vf by (simp add: s0_def CheckIfValueFlag_def cong: option.case_cong)
  have und0: "list_all (\<lambda>d. \<not> spelled t d) (required s0 @ optional s0)"
    using undeclared by (simp add: s0_def t_def)
  have t_nd: "t \<noteq> ''--''"
  proof
    assume a: "t = ''--''"
    have "CHR ''='' \<in> set t" by (simp add: t_def)
    then have "CHR ''='' \<in> set ''--''" by (simp only: a)
    then show False by simp
  qed
  have "find_first_of t (CHR ''='') = Some (length f)"
    using find_first_of_append [OF noeq, of v] by (simp add: t_def)
  then have split: "TryFlagValueSplit s0 t = Some (f, v)"
    using vf0 by (simp add: TryFlagValueSplit_def t_def)
  have one: "scan (length (required s) + length (optional s)) [t] 0 False s0
               = (None, 0 + 1, length (required s) + length (optional s) \<le> 0 + 1, s1)"
    unfolding s1_def
    by (rule scan_one_split [OF t_nd undeclared_not_flag [OF und0] split])
  have two: "scan (length (required s) + length (optional s)) [f, v] 0 False s0
               = (None, 0 + 1, length (required s) + length (optional s) \<le> 0 + 1, s1)"
    unfolding s1_def
    by (rule scan_flag_and_value [OF nodelim value_flag_not_valueless [OF vf0] vf0])
  have same: "Parse bin [t] s = Parse bin [f, v] s"
    by (rule Parse_determined_by_scan [OF one [unfolded s0_def] two [unfolded s0_def]])
  have "constant_store f v (arguments s1)"
    using fresh by (simp add: constant_store_def s1_def s0_def)
  then have "arguments (snd (Parse bin [f, v] s)) f = Some v"
    by (rule Parse_keeps_constant [OF two [unfolded s0_def]])
  then show ?thesis using same by (simp add: t_def)
qed

theorem C5_equals_form_witness:
  "Parse ''prog'' [''--name=Alice''] two_flags = Parse ''prog'' [''--name'', ''Alice''] two_flags
   \<and> arguments (snd (Parse ''prog'' [''--name'', ''Alice''] two_flags)) ''--name'' = Some ''Alice''"
  using C5_equals_form_and_two_tokens
          [where s = two_flags and f = "''--name''" and v = "''Alice''" and bin = "''prog''"]
  by (simp add: two_flags_def registry_defs classify_defs)

text \<open>
  The claim as it is written speaks of every declared value flag. \<open>TryFlagValueSplit\<close>
  cuts the token at its first \<open>=\<close>, so for a flag whose name contains that character
  the one-token form is not recognised: the token becomes a positional token.
\<close>

definition flag_with_equals :: Args where
  "flag_with_equals = AddOptionalFlagValue ''--set=x'' [] ''sets x'' [] Args_default"

theorem C5_flag_name_with_separator:
  "CheckIfValueFlag flag_with_equals ''--set=x''
   \<and> arguments (snd (Parse ''prog'' [''--set=x'', ''1''] flag_with_equals)) ''--set=x'' = Some ''1''
   \<and> arguments (snd (Parse ''prog'' [''--set=x=1''] flag_with_equals)) ''--set=x'' = None
   \<and> fst (Parse ''prog'' [''--set=x'', ''1''] flag_with_equals) = []
   \<and> fst (Parse ''prog'' [''--set=x=1''] flag_with_equals) = ''Unknown arguments''"
  by (simp add: Parse_def flag_with_equals_def registry_defs classify_defs validate_defs)

section \<open>The 8-bit unsigned accessor\<close>

lemmas strtoul_defs = strtoul_def isspace_def digit_of_def ERANGE_def Let_def

text \<open>
  A store with three numeric texts, and exceptions disabled.
\<close>

definition numbers :: Args where
  "numbers =
     (DisableExceptions Args_default)
       \<lparr>arguments := [''big'' \<mapsto> ''99999999999999999999'', ''port'' \<mapsto> ''255'',
                      ''code'' \<mapsto> ''300'']\<rparr>"

lemma strtoul_255: "strtoul ''255'' e = (255, e)"
  by (simp add: strtoul_defs)

lemma strtoul_300: "strtoul ''300'' e = (300, e)"
  by (simp add: strtoul_defs)

lemma strtoul_big: "strtoul ''99999999999999999999'' e = (- 1, ERANGE)"
  by (simp add: strtoul_defs)

text \<open>
  The two halves of claim C8 where they hold: \<open>300\<close> is refused whatever \<open>errno\<close> was, and
  \<open>255\<close> is returned when \<open>errno\<close> was not \<open>ERANGE\<close> before the call.
\<close>

lemma GetAsUInt8_300:
  assumes "arguments s f = Some ''300''" and "f \<noteq> []"
  shows "fst (GetAsUInt8 s e f) =
           (if exceptions_enabled s
            then Inl (if e = ERANGE then ''Could not convert 300 to uint64_t''
                      else f @ '' was too large for uint8_t'')
            else Inr 0)"
  using assms by (simp add: GetAsUInt8_def GetAsUInt64_ref_def strtoul_300)

lemma GetAsUInt8_255:
  assumes "arguments s f = Some ''255''" and "f \<noteq> []" and "e \<noteq> ERANGE"
  shows "GetAsUInt8 s e f = (Inr 255, e)"
  using assms by (simp add: GetAsUInt8_def GetAsUInt64_ref_def strtoul_255)

text \<open>
  Claim C8 says that the 8-bit unsigned accessor returns 255 for the stored text \<open>255\<close>.
  \<open>GetAsUInt64\<close> takes \<open>errno == ERANGE\<close> after \<open>strtoul\<close> for a range error of this
  conversion, but never clears \<open>errno\<close> before it, and \<open>strtoul\<close> leaves \<open>errno\<close> alone
  when it succeeds. After one conversion that did overflow (the flag \<open>big\<close>), the next
  call for \<open>255\<close> fails: with exceptions disabled it returns 0, with exceptions enabled
  it throws.
\<close>

theorem C8_stale_errno:
  "GetAsUInt8 numbers 0 ''port'' = (Inr 255, 0)
   \<and> GetAsUInt8 numbers 0 ''big'' = (Inr 0, ERANGE)
   \<and> GetAsUInt8 numbers (snd (GetAsUInt8 numbers 0 ''big'')) ''port'' = (Inr 0, ERANGE)
   \<and> GetAsUInt8 (numbers\<lparr>exceptions_enabled := True\<rparr>) ERANGE ''port''
       = (Inl ''Could not convert 255 to uint64_t'', ERANGE)"
  by (simp add: GetAsUInt8_def GetAsUInt64_ref_def strtoul_255 strtoul_big numbers_def
        DisableExceptions_def Args_default_def)
     (simp add: ERANGE_def)

section \<open>The preamble of the usage text\<close>

text \<open>
  The pieces of the preamble as the code writes them: the entry of an optional flag, the
  entry of a required flag, and the placeholders for \<open>N\<close> positional tokens.
\<close>

definition usage_optional :: "Argument \<Rightarrow> string" where
  "usage_optional a =
     ''['' @ flag a
       @ (if flag a \<noteq> [] \<and> takes_value a then ''=value'' else [])
       @ (if alias' a \<noteq> [] then ''|'' @ alias' a @ (if takes_value a then ''=value'' else [])
          else [])
       @ ''] ''"

definition usage_required :: "Argument \<Rightarrow> string" where
  "usage_required a =
     flag a
       @ (if takes_value a then ''=value'' else [])
       @ (if alias' a \<noteq> [] then ''|'' @ alias' a @ (if takes_value a then ''=value'' else [])
          else [])
       @ '' ''"

definition usage_nonflags :: "nat \<Rightarrow> string" where
  "usage_nonflags N =
     (if N > 0 then ''<--> '' @ concat (map (\<lambda>i. ''nonflag'' @ to_string (i + 1) @ '' '') [0 ..< N])
      else [])"

text \<open>
  The preamble as claim C9 words it: every flag as \<open>flag|alias=value\<close>, the suffix
  \<open>=value\<close> once at the end and only for a value flag, optional flags in brackets. The
  separating blanks and the placeholders are taken as the code has them.
\<close>

definition claimed_item :: "Argument \<Rightarrow> string" where
  "claimed_item a = flag a @ ''|'' @ alias' a @ (if takes_value a then ''=value'' else [])"

definition claimed_preamble :: "Args \<Rightarrow> string" where
  "claimed_preamble s =
     ''Usage: '' @ binary s @ '' ''
       @ concat (map (\<lambda>a. ''['' @ claimed_item a @ ''] '') (optional s))
       @ concat (map (\<lambda>a. claimed_item a @ '' '') (required s))
       @ usage_nonflags (nonflags_required s)
       @ [CHR 0x0A]"

lemma foldl_append_items: "foldl (\<lambda>output x. output @ f x) out xs = out @ concat (map f xs)"
  by (induction xs arbitrary: out) simp_all

lemma preamble_optional_append: "preamble_optional out a = out @ usage_optional a"
  by (simp add: preamble_optional_def usage_optional_def Let_def)

lemma preamble_required_append: "preamble_required out a = out @ usage_required a"
  by (simp add: preamble_required_def usage_required_def Let_def)

lemma foldl_preamble_optional:
  "foldl preamble_optional out xs = out @ concat (map usage_optional xs)"
  by (induction xs arbitrary: out) (simp_all add: preamble_optional_append)

lemma foldl_preamble_required:
  "foldl preamble_required out xs = out @ concat (map usage_required xs)"
  by (induction xs arbitrary: out) (simp_all add: preamble_required_append)

lemma preamble_text_closed:
  "preamble_text s =
     ''Usage: '' @ binary s @ '' ''
       @ concat (map usage_optional (optional s))
       @ concat (map usage_required (required s))
       @ usage_nonflags (nonflags_required s)
       @ [CHR 0x0A]"
  by (simp add: preamble_text_def Let_def foldl_preamble_optional foldl_preamble_required
        foldl_append_items usage_nonflags_def)

lemma GenerateUsage_preamble:
  assumes "GenerateUsage s = Some (Inr s')"
  shows "preamble s' = preamble_text s"
proof -
  let ?o1 = "if length (required s) > 0 then [CHR 0x0A] @ ''  Required flags:'' @ [CHR 0x0A] else []"
  obtain o2 where g1: "GenerateArgumentUsage s (required s) ?o1 = Some (Inr o2)"
    using assms by (auto simp: GenerateUsage_def Let_def split: option.splits sum.splits)
  let ?o3 = "if length (optional s) > 0 then o2 @ [CHR 0x0A] @ ''  Optional flags:'' @ [CHR 0x0A] else o2"
  obtain o4 where g2: "GenerateArgumentUsage s (optional s) ?o3 = Some (Inr o4)"
    using assms g1 by (auto simp: GenerateUsage_def Let_def split: option.splits sum.splits)
  show ?thesis
    using assms g1 g2 by (auto simp: GenerateUsage_def Let_def)
qed

text \<open>
  Claim C9, as the code has it. The preamble that \<open>GenerateUsage\<close> stores is one line:
  \<open>Usage: \<close>, the binary and a blank; for each optional flag \<open>[flag=value|alias=value]\<close>
  and a blank; for each required flag \<open>flag=value|alias=value\<close> and a blank; only for a
  positional count above zero \<open><--> \<close> and \<open>nonflag1 \<close> to \<open>nonflagN \<close>; a newline. Each
  \<open>=value\<close> is written only for a value flag (and not after an empty primary name of an
  optional flag), and \<open>|alias\<close> only for a non-empty alias.
\<close>

theorem C9_preamble_layout:
  assumes "GenerateUsage s = Some (Inr s')"
  shows "preamble s' =
     ''Usage: '' @ binary s @ '' ''
       @ concat (map usage_optional (optional s))
       @ concat (map usage_required (required s))
       @ usage_nonflags (nonflags_required s)
       @ [CHR 0x0A]"
  using GenerateUsage_preamble [OF assms] by (simp add: preamble_text_closed)

text \<open>
  The theorem at the registry of \<open>--name\<close>/\<open>-n\<close> (required, with value) and
  \<open>--verbose\<close>/\<open>-v\<close> (optional, without), with two positional tokens required.
\<close>

definition usage_example :: Args where
  "usage_example = RequireNonFlags 2 (name_and_verbose\<lparr>binary := ''prog''\<rparr>)"

lemmas usage_defs =
  GenerateUsage_def FormatDescription_def flag_ids_def setw_left_def

lemma GenerateUsage_example: "\<exists>s'. GenerateUsage usage_example = Some (Inr s')"
  by (simp add: usage_example_def name_and_verbose_def registry_defs usage_defs)

theorem C9_preamble_layout_witness:
  "(case GenerateUsage usage_example of Some (Inr s') \<Rightarrow> preamble s' | _ \<Rightarrow> [])
     = ''Usage: prog [--verbose|-v] --name=value|-n=value <--> nonflag1 nonflag2 '' @ [CHR 0x0A]"
proof -
  obtain s' where g: "GenerateUsage usage_example = Some (Inr s')"
    using GenerateUsage_example by blast
  have "preamble s' =
      ''Usage: prog [--verbose|-v] --name=value|-n=value <--> nonflag1 nonflag2 '' @ [CHR 0x0A]"
    using C9_preamble_layout [OF g]
    by (simp add: usage_example_def name_and_verbose_def registry_defs usage_optional_def
          usage_required_def usage_nonflags_def to_string.simps digit_char_def upt_rec)
  then show ?thesis using g by simp
qed

text \<open>
  The claim as it is written puts \<open>=value\<close> once, after the alias. The code writes it
  after the primary name and after the alias.
\<close>

theorem C9_value_suffix_on_both_spellings:
  "(case GenerateUsage usage_example of Some (Inr s') \<Rightarrow> preamble s' | _ \<Rightarrow> [])
     = ''Usage: prog [--verbose|-v] --name=value|-n=value <--> nonflag1 nonflag2 '' @ [CHR 0x0A]
   \<and> claimed_preamble usage_example
     = ''Usage: prog [--verbose|-v] --name|-n=value <--> nonflag1 nonflag2 '' @ [CHR 0x0A]
   \<and> (case GenerateUsage usage_example of Some (Inr s') \<Rightarrow> preamble s' | _ \<Rightarrow> [])
     \<noteq> claimed_preamble usage_example"
proof -
  obtain s' where g: "GenerateUsage usage_example = Some (Inr s')"
    using GenerateUsage_example by blast
  have p: "preamble s' =
      ''Usage: prog [--verbose|-v] --name=value|-n=value <--> nonflag1 nonflag2 '' @ [CHR 0x0A]"
    using GenerateUsage_preamble [OF g]
    by (simp add: preamble_text_closed usage_example_def name_and_verbose_def registry_defs
          usage_optional_def usage_required_def usage_nonflags_def to_string.simps
          digit_char_def upt_rec)
  have c: "claimed_preamble usage_example
     = ''Usage: prog [--verbose|-v] --name|-n=value <--> nonflag1 nonflag2 '' @ [CHR 0x0A]"
    by (simp add: claimed_preamble_def claimed_item_def usage_example_def name_and_verbose_def
          registry_defs usage_nonflags_def to_string.simps digit_char_def upt_rec)
  show ?thesis using g p c by simp
qed

section \<open>The default-value backfill of \<open>Initialize\<close>\<close>

















section \<open>Termination of \<open>FormatDescription\<close>\<close>















end
